theory Spec2Isabelle
  imports Main "HOL-Library.Log_Nat" "HOL-Library.Stream" "HOL-Library.Word"
begin

section \<open>Double-precision arithmetic\<close>

text \<open>
  The coordinates of \<^verbatim>\<open>Code.py\<close> are Python floats, that is IEEE 754 doubles. A finite
  double is a rational number, so the model computes with \<open>rat\<close> and rounds the exact
  result of every operation to the nearest double, ties to the even significand. The
  exponent range is left open: every magnitude that occurs below is 0 or lies between
  \<open>2\<^sup>-\<^sup>5\<^sup>3\<close> and \<open>128\<close>, far from overflow and from the subnormal range.
\<close>

definition ilog2 :: "rat \<Rightarrow> int" where
  \<comment> \<open>the binary exponent \<open>e\<close> of a positive \<open>x\<close>: \<open>2\<^sup>e \<le> x < 2\<^sup>e\<^sup>+\<^sup>1\<close>\<close>
  "ilog2 x = (let (p, q) = quotient_of x; d = bitlen p - bitlen q
              in if 2 powi d \<le> x then d else d - 1)"

definition ulp :: "rat \<Rightarrow> rat" where
  \<comment> \<open>the spacing of the doubles in the binade of \<open>x\<close> (53-bit significand)\<close>
  "ulp x = 2 powi (ilog2 x - 52)"

definition rne :: "rat \<Rightarrow> int" where
  \<comment> \<open>round to the nearest integer, a tie to the even one\<close>
  "rne t = (let f = \<lfloor>t\<rfloor>; r = t - of_int f
            in if r < 1 / 2 then f
               else if 1 / 2 < r then f + 1
               else if even f then f else f + 1)"

definition fl :: "rat \<Rightarrow> rat" where
  "fl x = (if x = 0 then 0
           else sgn x * (of_int (rne (\<bar>x\<bar> / ulp \<bar>x\<bar>)) * ulp \<bar>x\<bar>))"

section \<open>The data model\<close>

datatype error = KeyError string | ValueError string

text \<open>
  \<^verbatim>\<open>pd.DataFrame({'lat': lat, 'lon': lon})\<close>: a frame of two float columns. pandas
  refuses columns of different lengths.
\<close>

record dataframe =
  lat :: "rat list"
  lon :: "rat list"

definition DataFrame :: "rat list \<Rightarrow> rat list \<Rightarrow> error + dataframe" where
  "DataFrame la lo =
     (if length la \<noteq> length lo then Inl (ValueError ''All arrays must be of the same length'')
      else Inr \<lparr>lat = la, lon = lo\<rparr>)"

definition df_len :: "dataframe \<Rightarrow> int" where
  \<comment> \<open>\<^verbatim>\<open>len(data)\<close>: the number of rows\<close>
  "df_len df = int (length (lat df))"

definition df_head :: "nat \<Rightarrow> dataframe \<Rightarrow> dataframe" where
  \<comment> \<open>\<^verbatim>\<open>data.head(n)\<close>\<close>
  "df_head n df = \<lparr>lat = take n (lat df), lon = take n (lon df)\<rparr>"

definition rows :: "dataframe \<Rightarrow> (rat \<times> rat) list" where
  \<comment> \<open>the coordinate pairs, in the order of \<^verbatim>\<open>get_position=["lon", "lat"]\<close>\<close>
  "rows df = zip (lon df) (lat df)"

text \<open>
  What outlives a statement of the script: the module global \<^verbatim>\<open>NORWAY_BOUNDS\<close> (a
  mutable dict), the store behind \<^verbatim>\<open>@st.cache_data\<close>, keyed by the argument of
  \<^verbatim>\<open>generate_data\<close>, and the state of NumPy's global generator. The generator is
  identified with the stream of 53-bit draws that it will deliver from here on.
\<close>

record world =
  NORWAY_BOUNDS :: "string \<rightharpoonup> rat"
  cache :: "int \<rightharpoonup> dataframe"
  random_state :: "53 word stream"

definition bounds_dict :: "string \<rightharpoonup> rat" where
  \<comment> \<open>the dict literal of lines 49 to 54\<close>
  "bounds_dict = [''min_lon'' \<mapsto> 4, ''max_lon'' \<mapsto> 63 / 2,
                  ''min_lat'' \<mapsto> 115 / 2, ''max_lat'' \<mapsto> 143 / 2]"

definition getitem :: "(string \<rightharpoonup> rat) \<Rightarrow> string \<Rightarrow> error + rat" where
  \<comment> \<open>\<^verbatim>\<open>d[key]\<close>\<close>
  "getitem d key = (case d key of None \<Rightarrow> Inl (KeyError key) | Some v \<Rightarrow> Inr v)"

section \<open>Data generation\<close>

text \<open>
  \<^verbatim>\<open>np.random.uniform(low, high, size)\<close> of the legacy generator: a negative size
  is refused; otherwise each element is \<^verbatim>\<open>low + (high - low) * random_sample()\<close>,
  where \<^verbatim>\<open>random_sample()\<close> is a 53-bit draw \<open>k\<close> scaled to \<open>k / 2\<^sup>5\<^sup>3\<close>. The
  difference, the product and the sum are each rounded to a double. Memory is taken to
  suffice for the array: NumPy also refuses a size that it cannot allocate, far above
  the 10000 that the slider allows.
\<close>

definition random_sample :: "53 word \<Rightarrow> rat" where
  "random_sample k = of_nat (unat k) / 2 ^ 53"

definition random_uniform :: "rat \<Rightarrow> rat \<Rightarrow> 53 word \<Rightarrow> rat" where
  \<comment> \<open>one element: \<^verbatim>\<open>lower + range * next_double\<close>\<close>
  "random_uniform lower rng k = fl (lower + fl (rng * random_sample k))"

definition uniform ::
  "rat \<Rightarrow> rat \<Rightarrow> int \<Rightarrow> 53 word stream \<Rightarrow> error + (rat list \<times> 53 word stream)" where
  "uniform low high sz s =
     (if sz < 0 then Inl (ValueError ''negative dimensions are not allowed'')
      else let n = nat sz
           in Inr (map (random_uniform low (fl (high - low))) (stake n s), sdrop n s))"

text \<open>The function of lines 58 to 62, without its decorator.\<close>

definition generate_data_wrapped :: "int \<Rightarrow> world \<Rightarrow> error + (dataframe \<times> world)" where
  "generate_data_wrapped num_points w =
     (case getitem (NORWAY_BOUNDS w) ''min_lat'' of Inl e \<Rightarrow> Inl e | Inr min_lat \<Rightarrow>
     (case getitem (NORWAY_BOUNDS w) ''max_lat'' of Inl e \<Rightarrow> Inl e | Inr max_lat \<Rightarrow>
     (case uniform min_lat max_lat num_points (random_state w) of Inl e \<Rightarrow> Inl e | Inr (la, s1) \<Rightarrow>
     (case getitem (NORWAY_BOUNDS w) ''min_lon'' of Inl e \<Rightarrow> Inl e | Inr min_lon \<Rightarrow>
     (case getitem (NORWAY_BOUNDS w) ''max_lon'' of Inl e \<Rightarrow> Inl e | Inr max_lon \<Rightarrow>
     (case uniform min_lon max_lon num_points s1 of Inl e \<Rightarrow> Inl e | Inr (lo, s2) \<Rightarrow>
     (case DataFrame la lo of Inl e \<Rightarrow> Inl e | Inr df \<Rightarrow>
        Inr (df, w\<lparr>random_state := s2\<rparr>))))))))"

text \<open>
  \<^verbatim>\<open>@st.cache_data\<close>: a call whose argument is in the store returns the stored frame
  and does not run the function; any other call runs it and, when it returns, stores the
  result under the argument. A call that raises stores nothing.
\<close>

definition cache_data ::
  "(int \<Rightarrow> world \<Rightarrow> error + (dataframe \<times> world)) \<Rightarrow> int \<Rightarrow> world \<Rightarrow> error + (dataframe \<times> world)" where
  "cache_data f n w =
     (case cache w n of
        Some df \<Rightarrow> Inr (df, w)
      | None \<Rightarrow>
          (case f n w of
             Inl e \<Rightarrow> Inl e
           | Inr (df, w') \<Rightarrow> Inr (df, w'\<lparr>cache := (cache w')(n \<mapsto> df)\<rparr>)))"

definition generate_data :: "int \<Rightarrow> world \<Rightarrow> error + (dataframe \<times> world)" where
  "generate_data = cache_data generate_data_wrapped"

definition cache_data_clear :: "world \<Rightarrow> world" where
  \<comment> \<open>\<^verbatim>\<open>st.cache_data.clear()\<close>\<close>
  "cache_data_clear w = w\<lparr>cache := Map.empty\<rparr>"

text \<open>A sequence of calls, for the counts of a list in turn; the first that raises ends it.\<close>

fun later_calls :: "int list \<Rightarrow> world \<Rightarrow> error + world" where
  "later_calls [] w = Inr w"
| "later_calls (m # ms) w =
     (case generate_data m w of Inl e \<Rightarrow> Inl e | Inr (d, w') \<Rightarrow> later_calls ms w')"

section \<open>The page\<close>

text \<open>
  A Streamlit slider returns its \<^verbatim>\<open>value\<close> argument until the user moves the handle;
  afterwards it returns the position of the handle, which the browser keeps between
  \<^verbatim>\<open>min_value\<close> and \<^verbatim>\<open>max_value\<close>. The position, if any, arrives with the request
  for the run; one outside the range is discarded for the default.
\<close>

record slider_args =
  min_value :: int
  max_value :: int
  default_value :: int
  step :: int

definition slider :: "slider_args \<Rightarrow> int option \<Rightarrow> int" where
  "slider a handle =
     (case handle of
        None \<Rightarrow> default_value a
      | Some v \<Rightarrow> if min_value a \<le> v \<and> v \<le> max_value a then v else default_value a)"

record ui =
  num_points_handle :: "int option"
  hexagon_radius_handle :: "int option"
  elevation_scale_handle :: "int option"
  regenerate_clicked :: bool
  show_raw_checked :: bool

definition num_points_slider :: "ui \<Rightarrow> int" where
  "num_points_slider u =
     slider \<lparr>min_value = 100, max_value = 10000, default_value = 5000, step = 100\<rparr>
       (num_points_handle u)"

definition hexagon_radius_slider :: "ui \<Rightarrow> int" where
  "hexagon_radius_slider u =
     slider \<lparr>min_value = 1000, max_value = 50000, default_value = 10000, step = 1000\<rparr>
       (hexagon_radius_handle u)"

definition elevation_scale_slider :: "ui \<Rightarrow> int" where
  "elevation_scale_slider u =
     slider \<lparr>min_value = 1, max_value = 100, default_value = 20, step = 1\<rparr>
       (elevation_scale_handle u)"

text \<open>The scene handed to pydeck: the arguments of lines 75 to 114, field by field.\<close>

record Layer =
  layer_type :: string
  data :: dataframe
  get_position :: "string list"
  radius :: int
  elevation_scale :: int
  elevation_range :: "int list"
  extruded :: bool
  pickable :: bool
  auto_highlight :: bool
  coverage :: int
  color_range :: "int list list"

record ViewState =
  longitude :: rat
  latitude :: rat
  zoom :: int
  pitch :: int
  bearing :: int

record Tooltip =
  html :: string
  style :: "(string \<times> string) list"

record Deck =
  map_style :: string
  layers :: "Layer list"
  initial_view_state :: ViewState
  tooltip :: Tooltip

definition layer :: "dataframe \<Rightarrow> ui \<Rightarrow> Layer" where
  "layer d u =
     \<lparr>layer_type = ''HexagonLayer'',
      data = d,
      get_position = [''lon'', ''lat''],
      radius = hexagon_radius_slider u,
      elevation_scale = elevation_scale_slider u,
      elevation_range = [0, 1000],
      extruded = True,
      pickable = True,
      auto_highlight = True,
      coverage = 1,
      color_range =
        [[255, 255, 178, 100],
         [254, 204, 92, 120],
         [253, 141, 60, 150],
         [240, 59, 32, 180],
         [189, 0, 38, 220]]\<rparr>"

definition view_state :: ViewState where
  "view_state = \<lparr>longitude = 10, latitude = 64, zoom = 4, pitch = 50, bearing = 0\<rparr>"

definition deck :: "dataframe \<Rightarrow> ui \<Rightarrow> Deck" where
  "deck d u =
     \<lparr>map_style = ''mapbox://styles/mapbox/light-v10'',
      layers = [layer d u],
      initial_view_state = view_state,
      tooltip =
        \<lparr>html = ''<b>Elevation Value:</b> {elevationValue}<br/><b>Number of Points:</b> {count}'',
         style = [(''color'', ''white'')]\<rparr>\<rparr>"

text \<open>
  One execution of the script from line 1. It ends either with the page or, when the
  button was clicked, at \<^verbatim>\<open>st.rerun()\<close> of line 70, after the cache was cleared.
\<close>

record page =
  generated :: int
  chart :: Deck
  raw_sample :: "dataframe option"

datatype outcome = Rerun | Rendered page

definition script :: "ui \<Rightarrow> world \<Rightarrow> error + (outcome \<times> world)" where
  "script u w =
     (case generate_data (num_points_slider u) (w\<lparr>NORWAY_BOUNDS := bounds_dict\<rparr>) of
        Inl e \<Rightarrow> Inl e
      | Inr (d, w1) \<Rightarrow>
          if regenerate_clicked u then Inr (Rerun, cache_data_clear w1)
          else Inr (Rendered
                      \<lparr>generated = df_len d,
                       chart = deck d u,
                       raw_sample = (if show_raw_checked u then Some (df_head 100 d) else None)\<rparr>,
                    w1))"

text \<open>
  What the user sees after an interaction: Streamlit answers \<^verbatim>\<open>st.rerun()\<close> by running
  the script again with the same widget values, except that a button reads as clicked
  only in the run that its click started.
\<close>

definition run :: "ui \<Rightarrow> world \<Rightarrow> error + (outcome \<times> world)" where
  "run u w =
     (case script u w of
        Inr (Rerun, w') \<Rightarrow> script (u\<lparr>regenerate_clicked := False\<rparr>) w'
      | r \<Rightarrow> r)"

section \<open>Properties named by the specification\<close>

definition in_bounding_box :: "rat \<times> rat \<Rightarrow> bool" where
  \<comment> \<open>a (longitude, latitude) pair inside the closed box\<close>
  "in_bounding_box p = (4 \<le> fst p \<and> fst p \<le> 63 / 2 \<and> 115 / 2 \<le> snd p \<and> snd p \<le> 143 / 2)"

definition below_upper_bounds :: "rat \<times> rat \<Rightarrow> bool" where
  \<comment> \<open>both upper bounds strict\<close>
  "below_upper_bounds p = (fst p < 63 / 2 \<and> snd p < 143 / 2)"

definition below_east_upto_north :: "rat \<times> rat \<Rightarrow> bool" where
  \<comment> \<open>the longitude bound strict, the latitude bound attained at most\<close>
  "below_east_upto_north p = (fst p < 63 / 2 \<and> snd p \<le> 143 / 2)"

definition frame_of_draws :: "nat \<Rightarrow> 53 word stream \<Rightarrow> dataframe" where
  \<comment> \<open>a fresh sample: the next \<open>n\<close> draws as latitudes over the range 14.0, the \<open>n\<close> after
      them as longitudes over the range 27.5\<close>
  "frame_of_draws n s =
     \<lparr>lat = map (random_uniform (115 / 2) 14) (stake n s),
      lon = map (random_uniform 4 (55 / 2)) (stake n (sdrop n s))\<rparr>"

definition normalized_rgba :: "int list \<Rightarrow> bool" where
  \<comment> \<open>four channels, each scaled into the unit interval\<close>
  "normalized_rgba c = (length c = 4 \<and> list_all (\<lambda>v. 0 \<le> v \<and> v \<le> 1) c)"

definition rgba8 :: "int list \<Rightarrow> bool" where
  \<comment> \<open>four channels, each an 8-bit intensity\<close>
  "rgba8 c = (length c = 4 \<and> list_all (\<lambda>v. 0 \<le> v \<and> v \<le> 255) c)"

definition darker :: "int list \<Rightarrow> int list \<Rightarrow> bool" where
  \<comment> \<open>the second stop has less red and less green, and is more opaque\<close>
  "darker c c' = (c' ! 0 < c ! 0 \<and> c' ! 1 < c ! 1 \<and> c ! 3 < c' ! 3)"

text \<open>
  The frames that a call of the undecorated function can return once line 49 has run, and
  the worlds in which line 49 has run and the store holds only such frames under their
  counts. A session starts with an empty store, and every operation of the script leaves
  the store in this condition.
\<close>

definition produced :: "int \<Rightarrow> dataframe \<Rightarrow> bool" where
  "produced n df \<longleftrightarrow>
     (\<exists>w w'. NORWAY_BOUNDS w = bounds_dict \<and> generate_data_wrapped n w = Inr (df, w'))"

definition cache_sound :: "world \<Rightarrow> bool" where
  "cache_sound w \<longleftrightarrow> (\<forall>n df. cache w n = Some df \<longrightarrow> produced n df)"

definition ready :: "world \<Rightarrow> bool" where
  "ready w \<longleftrightarrow> NORWAY_BOUNDS w = bounds_dict \<and> cache_sound w"

section \<open>Concrete sessions\<close>

text \<open>
  Inputs at which the theorems below are instantiated: a generator that delivers the
  draw 0 for ever, one whose first draw is the largest 53-bit value, the frames that 100
  points give with each, the widget state of a first visit and of a click on the
  button, alone or with the slider at 100, a world whose store already holds the frame
  for 100 points, the world that the call for 100 points leaves when the first draw was
  the largest, and that world after one more call, for a single point.
\<close>

definition world_zero :: world where
  "world_zero = \<lparr>NORWAY_BOUNDS = bounds_dict, cache = Map.empty, random_state = sconst 0\<rparr>"

definition world_top :: world where
  "world_top = \<lparr>NORWAY_BOUNDS = bounds_dict, cache = Map.empty, random_state = (- 1) ## sconst 0\<rparr>"

definition frame_zero :: dataframe where
  "frame_zero = \<lparr>lat = replicate 100 (115 / 2), lon = replicate 100 4\<rparr>"

definition frame_top :: dataframe where
  "frame_top = \<lparr>lat = 143 / 2 # replicate 99 (115 / 2), lon = 4 # replicate 99 4\<rparr>"

definition first_visit :: ui where
  "first_visit = \<lparr>num_points_handle = None, hexagon_radius_handle = None,
     elevation_scale_handle = None, regenerate_clicked = False, show_raw_checked = False\<rparr>"

definition clicked :: ui where
  "clicked = first_visit\<lparr>regenerate_clicked := True\<rparr>"

definition world_cached :: world where
  "world_cached = world_zero\<lparr>cache := [100 \<mapsto> frame_zero]\<rparr>"

definition frame_one :: dataframe where
  "frame_one = \<lparr>lat = [115 / 2], lon = [4]\<rparr>"

definition world_hit :: world where
  "world_hit = world_top\<lparr>cache := [100 \<mapsto> frame_top], random_state := sconst 0\<rparr>"

definition world_later :: world where
  "world_later = world_hit\<lparr>cache := [100 \<mapsto> frame_top, 1 \<mapsto> frame_one]\<rparr>"


section \<open>Rounding\<close>

text \<open>
  The exponent function brackets its argument between two consecutive powers of two, so
  the spacing \<open>ulp x\<close> is known as soon as \<open>x\<close> is bracketed.
\<close>

lemma bitlen_pow:
  assumes "0 < p"
  shows "2 powi (bitlen p - 1) \<le> (of_int p :: rat)" and "(of_int p :: rat) < 2 powi (bitlen p)"
proof -
  from bitlen_bounds[OF assms] have a: "2 ^ nat (bitlen p - 1) \<le> p" and b: "p < 2 ^ nat (bitlen p)" by auto
  have "floorlog 2 (nat p) \<noteq> 0" using assms by (simp add: floorlog_eq_zero_iff)
  then have pos: "0 < bitlen p" by (simp add: bitlen_def)
  have "(of_int (2 ^ nat (bitlen p - 1)) :: rat) \<le> of_int p" using a by (simp only: of_int_le_iff)
  then show "2 powi (bitlen p - 1) \<le> (of_int p :: rat)" using pos by (simp add: power_int_def)
  have "(of_int p :: rat) < of_int (2 ^ nat (bitlen p))" using b by (simp only: of_int_less_iff)
  then show "(of_int p :: rat) < 2 powi (bitlen p)" using pos by (simp add: power_int_def)
qed

lemma ilog2_bounds:
  assumes "0 < x"
  shows "2 powi (ilog2 x) \<le> x" and "x < 2 powi (ilog2 x + 1)"
proof -
  obtain p q where pq: "quotient_of x = (p, q)" by (cases "quotient_of x")
  have q: "0 < q" using pq by (rule quotient_of_denom_pos)
  have x: "x = of_int p / of_int q" using pq by (rule quotient_of_div)
  have p: "0 < p" using assms q x by (simp add: zero_less_divide_iff)
  note P = bitlen_pow[OF p] and Q = bitlen_pow[OF q]
  let ?d = "bitlen p - bitlen q"
  have qr: "(0::rat) < of_int q" using q by simp
  have lo: "2 powi (?d - 1) \<le> x"
  proof -
    have "2 powi (?d - 1) * of_int q \<le> 2 powi (?d - 1) * (2 powi (bitlen q) :: rat)"
      using Q by (intro mult_left_mono) auto
    also have "\<dots> = 2 powi (bitlen p - 1)" by (simp flip: power_int_add)
    also have "\<dots> \<le> of_int p" using P by simp
    finally show ?thesis using qr by (simp add: x pos_le_divide_eq)
  qed
  have hi: "x < 2 powi (?d + 1)"
  proof -
    have "of_int p < (2 powi (bitlen p) :: rat)" using P by simp
    also have "\<dots> = 2 powi (?d + 1) * 2 powi (bitlen q - 1)" by (simp flip: power_int_add)
    also have "\<dots> \<le> 2 powi (?d + 1) * of_int q" using Q by (intro mult_left_mono) auto
    finally show ?thesis using qr by (simp add: x pos_divide_less_eq)
  qed
  show "2 powi (ilog2 x) \<le> x" using lo by (simp add: ilog2_def pq Let_def)
  show "x < 2 powi (ilog2 x + 1)" using hi by (auto simp add: ilog2_def pq Let_def not_le)
qed

lemma pow2_less_cancel: "(2::rat) powi a < 2 powi b \<Longrightarrow> a < b"
  using power_int_increasing[of b a "2::rat"] by (cases "a < b") simp_all

lemma ilog2_le: "0 < x \<Longrightarrow> x < 2 powi (m + 1) \<Longrightarrow> ilog2 x \<le> m"
proof -
  assume x: "0 < x" and "x < 2 powi (m + 1)"
  with ilog2_bounds(1)[OF x] have "(2::rat) powi (ilog2 x) < 2 powi (m + 1)" by simp
  then have "ilog2 x < m + 1" by (rule pow2_less_cancel)
  then show ?thesis by simp
qed

lemma ilog2_ge: "0 < x \<Longrightarrow> 2 powi m \<le> x \<Longrightarrow> m \<le> ilog2 x"
proof -
  assume x: "0 < x" and "2 powi m \<le> x"
  with ilog2_bounds(2)[OF x] have "(2::rat) powi m < 2 powi (ilog2 x + 1)" by simp
  then have "m < ilog2 x + 1" by (rule pow2_less_cancel)
  then show ?thesis by simp
qed

text \<open>
  Rounding to the nearest integer never crosses an integer, and stays below an integer
  \<open>n\<close> as long as its argument stays below \<open>n + 1/2\<close>.
\<close>

lemma ulp_pos: "0 < ulp x"
  by (simp add: ulp_def)

lemma rne_le: "t \<le> of_int n \<Longrightarrow> rne t \<le> n"
proof -
  assume t: "t \<le> of_int n"
  then have f: "\<lfloor>t\<rfloor> \<le> n" by (simp add: floor_le_iff) 
  show ?thesis
  proof (cases "\<lfloor>t\<rfloor> = n")
    case True
    then have "t = of_int n" using t of_int_floor_le[of t] by simp
    then show ?thesis by (simp add: rne_def)
  next
    case False
    with f have "\<lfloor>t\<rfloor> + 1 \<le> n" by simp
    then show ?thesis by (simp add: rne_def Let_def)
  qed
qed

lemma rne_ge: "of_int n \<le> t \<Longrightarrow> n \<le> rne t"
proof -
  assume "of_int n \<le> t"
  then have "n \<le> \<lfloor>t\<rfloor>" by (simp add: le_floor_iff)
  then show ?thesis by (simp add: rne_def Let_def)
qed

lemma rne_below_half: "t < of_int n + 1 / 2 \<Longrightarrow> rne t \<le> n"
proof -
  assume t: "t < of_int n + 1 / 2"
  then have "t < of_int (n + 1)" by simp
  then have "\<lfloor>t\<rfloor> < n + 1" by (simp only: floor_less_iff)
  then have f: "\<lfloor>t\<rfloor> \<le> n" by simp
  show ?thesis
  proof (cases "\<lfloor>t\<rfloor> = n")
    case True
    then have "t - of_int \<lfloor>t\<rfloor> < 1 / 2" using t by simp
    then show ?thesis using True by (simp add: rne_def Let_def)
  next
    case False
    with f have "\<lfloor>t\<rfloor> + 1 \<le> n" by simp
    then show ?thesis by (simp add: rne_def Let_def)
  qed
qed

text \<open>
  Hence rounding to a double never crosses a number of the form \<open>j * 2\<^sup>m\<close> that lies
  on the grid of the argument's binade: such bounds survive every rounded operation.
\<close>

lemma fl_pos: "0 < x \<Longrightarrow> fl x = of_int (rne (x / ulp x)) * ulp x"
  by (simp add: fl_def)

lemma grid_int:
  assumes "ilog2 x - 52 \<le> m"
  shows "of_int j * 2 powi m / ulp x = of_int (j * 2 ^ nat (m - (ilog2 x - 52)))"
proof -
  have "(2::rat) powi m = 2 powi (m - (ilog2 x - 52)) * 2 powi (ilog2 x - 52)"
    by (simp flip: power_int_add)
  also have "(2::rat) powi (m - (ilog2 x - 52)) = 2 ^ nat (m - (ilog2 x - 52))"
    using assms by (simp add: power_int_def)
  finally show ?thesis by (simp add: ulp_def)
qed

lemma fl_le_grid:
  assumes "0 < x" "x \<le> of_int j * 2 powi m" "x < 2 powi (m + 53)"
  shows "fl x \<le> of_int j * 2 powi m"
proof -
  have "ilog2 x \<le> m + 52" using assms(1,3) by (intro ilog2_le) (simp_all add: add.commute)
  then have e: "ilog2 x - 52 \<le> m" by simp
  have "x / ulp x \<le> of_int j * 2 powi m / ulp x"
    using assms(2) ulp_pos[of x] by (simp add: divide_right_mono)
  then have "rne (x / ulp x) \<le> j * 2 ^ nat (m - (ilog2 x - 52))"
    unfolding grid_int[OF e] by (rule rne_le)
  then have "(of_int (rne (x / ulp x)) :: rat) \<le> of_int (j * 2 ^ nat (m - (ilog2 x - 52)))"
    by (simp only: of_int_le_iff)
  then have "of_int (rne (x / ulp x)) * ulp x \<le> of_int j * 2 powi m / ulp x * ulp x"
    unfolding grid_int[OF e] using ulp_pos[of x] by (intro mult_right_mono) simp_all
  then show ?thesis using ulp_pos[of x] by (simp add: fl_pos[OF assms(1)])
qed

lemma fl_ge_grid:
  assumes "0 < x" "of_int j * 2 powi m \<le> x" "x < 2 powi (m + 53)"
  shows "of_int j * 2 powi m \<le> fl x"
proof -
  have "ilog2 x \<le> m + 52" using assms(1,3) by (intro ilog2_le) (simp_all add: add.commute)
  then have e: "ilog2 x - 52 \<le> m" by simp
  have "of_int j * 2 powi m / ulp x \<le> x / ulp x"
    using assms(2) ulp_pos[of x] by (simp add: divide_right_mono)
  then have "j * 2 ^ nat (m - (ilog2 x - 52)) \<le> rne (x / ulp x)"
    unfolding grid_int[OF e] by (rule rne_ge)
  then have "(of_int (j * 2 ^ nat (m - (ilog2 x - 52))) :: rat) \<le> of_int (rne (x / ulp x))"
    by (simp only: of_int_le_iff)
  then have "of_int j * 2 powi m / ulp x * ulp x \<le> of_int (rne (x / ulp x)) * ulp x"
    unfolding grid_int[OF e] using ulp_pos[of x] by (intro mult_right_mono) simp_all
  then show ?thesis using ulp_pos[of x] by (simp add: fl_pos[OF assms(1)])
qed

lemma fl_below_half:
  assumes "0 < x" "x < (of_int n + 1 / 2) * ulp x"
  shows "fl x \<le> of_int n * ulp x"
proof -
  have "x / ulp x < of_int n + 1 / 2"
    using assms(2) ulp_pos[of x] by (simp add: pos_divide_less_eq)
  then have "rne (x / ulp x) \<le> n" by (rule rne_below_half)
  then have "(of_int (rne (x / ulp x)) :: rat) \<le> of_int n" by (simp only: of_int_le_iff)
  then show ?thesis using ulp_pos[of x] by (simp add: fl_pos[OF assms(1)] mult_right_mono)
qed

lemma fl_between_grid:
  assumes "of_int a * 2 powi m \<le> x" "x \<le> of_int b * 2 powi m" "0 \<le> a" "x < 2 powi (m + 53)"
  shows "of_int a * 2 powi m \<le> fl x \<and> fl x \<le> of_int b * 2 powi m"
proof (cases "x = 0")
  case True
  with assms(1,2) show ?thesis by (simp add: fl_def)
next
  case False
  have "(0::rat) \<le> of_int a * 2 powi m" using assms(3) by simp
  with assms(1) False have "0 < x" by simp
  then show ?thesis using assms fl_le_grid fl_ge_grid by simp
qed

text \<open>
  The two draws of the script. A unit draw is at most \<open>1 - 2\<^sup>-\<^sup>5\<^sup>3\<close>. The latitude
  \<open>57.5 + 14 u\<close> stays in the closed interval; the longitude \<open>4 + 27.5 u\<close> stays
  one spacing below \<open>31.5\<close>, because the product is already rounded down to
  \<open>27.5 - 2\<^sup>-\<^sup>4\<^sup>8\<close> at the largest draw.
\<close>

lemma random_sample_range: "0 \<le> random_sample k" "random_sample k \<le> 1 - 1 / 2 ^ 53"
proof -
  show "0 \<le> random_sample k"
    unfolding random_sample_def by (rule divide_nonneg_pos[OF of_nat_0_le_iff]) simp
  have "unat k < 2 ^ 53" using unsigned_less[of k] by simp
  then have "unat k \<le> 2 ^ 53 - 1" by simp
  then have "(of_nat (unat k) :: rat) \<le> of_nat (2 ^ 53 - 1)" by (simp only: of_nat_le_iff)
  then show "random_sample k \<le> 1 - 1 / 2 ^ 53" by (simp add: random_sample_def)
qed

lemma lat_element:
  "115 / 2 \<le> random_uniform (115 / 2) 14 k \<and> random_uniform (115 / 2) 14 k \<le> 143 / 2"
proof -
  let ?t = "14 * random_sample k"
  have u: "0 \<le> random_sample k" "random_sample k \<le> 1 - 1 / 2 ^ 53" by (rule random_sample_range)+
  have "of_int 0 * 2 powi 0 \<le> fl ?t \<and> fl ?t \<le> of_int 14 * 2 powi 0"
    using u by (intro fl_between_grid) simp_all
  then have t: "0 \<le> fl ?t" "fl ?t \<le> 14" by simp_all
  have "of_int 115 * 2 powi (- 1) \<le> fl (115 / 2 + fl ?t) \<and>
        fl (115 / 2 + fl ?t) \<le> of_int 143 * 2 powi (- 1)"
    using t by (intro fl_between_grid) simp_all
  then show ?thesis by (simp add: random_uniform_def)
qed

lemma lon_product:
  "0 \<le> fl (55 / 2 * random_sample k) \<and> fl (55 / 2 * random_sample k) \<le> 55 / 2 - 1 / 2 ^ 48"
proof -
  let ?t = "55 / 2 * random_sample k"
  have u: "0 \<le> random_sample k" "random_sample k \<le> 1 - 1 / 2 ^ 53" by (rule random_sample_range)+
  have t: "0 \<le> ?t" "?t \<le> 55 / 2 - 55 / 2 ^ 54" using u by simp_all
  show ?thesis
  proof (cases "?t < 16")
    case True
    have "of_int 0 * 2 powi 0 \<le> fl ?t \<and> fl ?t \<le> of_int 16 * 2 powi 0"
      using t True by (intro fl_between_grid) simp_all
    then show ?thesis by simp
  next
    case False
    then have pos: "0 < ?t" and ge: "2 powi 4 \<le> ?t" by simp_all
    have "?t < 2 powi (4 + 1)" using t by simp
    then have "ilog2 ?t \<le> 4" using pos by (intro ilog2_le)
    moreover have "4 \<le> ilog2 ?t" using pos ge by (rule ilog2_ge)
    ultimately have e: "ulp ?t = 1 / 2 ^ 48" by (simp add: ulp_def power_int_minus_divide)
    have "?t < (of_int (55 * 2 ^ 47 - 1) + 1 / 2) * ulp ?t" using t unfolding e by simp
    with pos have "fl ?t \<le> of_int (55 * 2 ^ 47 - 1) * ulp ?t" by (rule fl_below_half)
    then have "fl ?t \<le> 55 / 2 - 1 / 2 ^ 48" unfolding e by simp
    moreover have "of_int 0 * 2 powi 0 \<le> fl ?t"
      using pos t by (intro fl_ge_grid) simp_all
    ultimately show ?thesis by simp
  qed
qed

lemma lon_element:
  "4 \<le> random_uniform 4 (55 / 2) k \<and> random_uniform 4 (55 / 2) k \<le> 63 / 2 - 1 / 2 ^ 48"
proof -
  let ?t = "55 / 2 * random_sample k"
  have t: "0 \<le> fl ?t" "fl ?t \<le> 55 / 2 - 1 / 2 ^ 48" using lon_product[of k] by simp_all
  have "of_int (4 * 2 ^ 48) * 2 powi (- 48) \<le> fl (4 + fl ?t) \<and>
        fl (4 + fl ?t) \<le> of_int (63 * 2 ^ 47 - 1) * 2 powi (- 48)"
    using t by (intro fl_between_grid) (simp_all add: power_int_minus_divide)
  then show ?thesis by (simp add: random_uniform_def power_int_minus_divide)
qed

section \<open>The generator\<close>

text \<open>
  With the dict of line 49 in place the undecorated function has a closed form: it fails
  exactly on a negative count, and otherwise maps the next \<open>n\<close> draws to latitudes
  and the \<open>n\<close> draws after them to longitudes. It changes nothing but the generator.
\<close>

lemma fl_14: "fl 14 = 14"
  by code_simp

lemma fl_55_2: "fl (55 / 2) = 55 / 2"
  by code_simp


lemma wrapped_closed:
  assumes "NORWAY_BOUNDS w = bounds_dict" "0 \<le> n"
  shows "generate_data_wrapped n w =
    Inr (\<lparr>lat = map (random_uniform (115 / 2) 14) (stake (nat n) (random_state w)),
          lon = map (random_uniform 4 (55 / 2)) (stake (nat n) (sdrop (nat n) (random_state w)))\<rparr>,
         w\<lparr>random_state := sdrop (nat n) (sdrop (nat n) (random_state w))\<rparr>)"
  using assms
  by (simp add: generate_data_wrapped_def getitem_def bounds_dict_def uniform_def DataFrame_def
      Let_def fl_14 fl_55_2 del: sdrop_add)

lemma wrapped_negative:
  assumes "NORWAY_BOUNDS w = bounds_dict" "n < 0"
  shows "generate_data_wrapped n w = Inl (ValueError ''negative dimensions are not allowed'')"
  using assms
  by (simp add: generate_data_wrapped_def getitem_def bounds_dict_def uniform_def)

lemma wrapped_frame:
  assumes "generate_data_wrapped n w = Inr (df, w')"
  shows "NORWAY_BOUNDS w' = NORWAY_BOUNDS w" and "cache w' = cache w"
  using assms
  by (auto simp add: generate_data_wrapped_def split: sum.splits prod.splits)

lemma produced_columns:
  assumes "produced n df"
  shows "0 \<le> n" "length (lat df) = nat n" "length (lon df) = nat n"
    "list_all (\<lambda>y. 115 / 2 \<le> y \<and> y \<le> 143 / 2) (lat df)"
    "list_all (\<lambda>x. 4 \<le> x \<and> x \<le> 63 / 2 - 1 / 2 ^ 48) (lon df)"
proof -
  from assms obtain w w' where b: "NORWAY_BOUNDS w = bounds_dict"
    and g: "generate_data_wrapped n w = Inr (df, w')"
    by (auto simp add: produced_def)
  show n: "0 \<le> n"
  proof (rule ccontr)
    assume "\<not> 0 \<le> n"
    then have "n < 0" by simp
    from wrapped_negative[OF b this] g show False by simp
  qed
  from wrapped_closed[OF b n] g
  have df: "df = \<lparr>lat = map (random_uniform (115 / 2) 14) (stake (nat n) (random_state w)),
          lon = map (random_uniform 4 (55 / 2)) (stake (nat n) (sdrop (nat n) (random_state w)))\<rparr>"
    by simp
  show "length (lat df) = nat n" "length (lon df) = nat n" by (simp_all add: df)
  show "list_all (\<lambda>y. 115 / 2 \<le> y \<and> y \<le> 143 / 2) (lat df)"
    using lat_element by (simp add: df list_all_iff)
  show "list_all (\<lambda>x. 4 \<le> x \<and> x \<le> 63 / 2 - 1 / 2 ^ 48) (lon df)"
    using lon_element by (simp add: df list_all_iff)
qed

lemma produced_rows:
  assumes "produced n df"
  shows "length (rows df) = nat n" "df_len df = n"
    "list_all in_bounding_box (rows df)" "list_all below_east_upto_north (rows df)"
proof -
  note c = produced_columns[OF assms]
  show "length (rows df) = nat n" using c by (simp add: rows_def)
  show "df_len df = n" using c by (simp add: df_len_def)
  have la: "\<And>y. y \<in> set (lat df) \<Longrightarrow> 115 / 2 \<le> y \<and> y \<le> 143 / 2"
    using c(4) by (simp add: list_all_iff)
  have lo: "\<And>x. x \<in> set (lon df) \<Longrightarrow> 4 \<le> x \<and> x \<le> 63 / 2 - 1 / 2 ^ 48"
    using c(5) by (simp add: list_all_iff)
  have lo': "\<And>x. x \<in> set (lon df) \<Longrightarrow> x \<le> 63 / 2 \<and> x < 63 / 2"
  proof -
    fix x assume "x \<in> set (lon df)"
    from lo[OF this] have "x \<le> 63 / 2 - 1 / 2 ^ 48" by simp
    then show "x \<le> 63 / 2 \<and> x < 63 / 2" by simp
  qed
  have z: "\<And>x y. (x, y) \<in> set (zip (lon df) (lat df)) \<Longrightarrow> x \<in> set (lon df) \<and> y \<in> set (lat df)"
    by (auto dest: set_zip_leftD set_zip_rightD)
  show "list_all in_bounding_box (rows df)"
    unfolding list_all_iff rows_def in_bounding_box_def
    using la lo lo' by (auto dest: z)
  show "list_all below_east_upto_north (rows df)"
    unfolding list_all_iff rows_def below_east_upto_north_def
    using la lo' by (auto dest: z)
qed

text \<open>
  The decorated function: a hit returns the stored frame and leaves the world alone, a
  miss runs the function and stores its frame. Either way the dict of bounds is the one
  that was there before, and a ready world stays ready.
\<close>

lemma generate_data_hit: "cache w n = Some df \<Longrightarrow> generate_data n w = Inr (df, w)"
  by (simp add: generate_data_def cache_data_def)

lemma generate_data_miss:
  "cache w n = None \<Longrightarrow>
   generate_data n w =
     (case generate_data_wrapped n w of
        Inl e \<Rightarrow> Inl e
      | Inr (df, w') \<Rightarrow> Inr (df, w'\<lparr>cache := (cache w')(n \<mapsto> df)\<rparr>))"
  by (simp add: generate_data_def cache_data_def)

lemma generate_data_total:
  assumes "NORWAY_BOUNDS w = bounds_dict" "0 \<le> n"
  shows "\<exists>df w'. generate_data n w = Inr (df, w') \<and> NORWAY_BOUNDS w' = bounds_dict"
proof (cases "cache w n")
  case None
  then show ?thesis using assms by (simp add: generate_data_miss wrapped_closed)
next
  case (Some df)
  then show ?thesis using assms by (simp add: generate_data_hit)
qed

lemma generate_data_ready:
  assumes "ready w" "generate_data n w = Inr (df, w')"
  shows "produced n df" and "ready w'"
proof -
  from assms(1) have b: "NORWAY_BOUNDS w = bounds_dict" and cs: "cache_sound w"
    by (simp_all add: ready_def)
  have "produced n df \<and> ready w'"
  proof (cases "cache w n")
    case (Some d)
    with assms(2) have "d = df" "w' = w" by (simp_all add: generate_data_hit)
    with Some cs assms(1) show ?thesis by (auto simp add: cache_sound_def)
  next
    case None
    with assms(2) obtain w0 where g: "generate_data_wrapped n w = Inr (df, w0)"
      and w': "w' = w0\<lparr>cache := (cache w0)(n \<mapsto> df)\<rparr>"
      by (auto simp add: generate_data_miss split: sum.splits prod.splits)
    have p: "produced n df" using b g by (auto simp add: produced_def)
    have "ready w'"
      using wrapped_frame[OF g] b cs p by (auto simp add: ready_def cache_sound_def w')
    with p show ?thesis by simp
  qed
  then show "produced n df" and "ready w'" by simp_all
qed

lemma generate_data_frame:
  assumes "generate_data n w = Inr (df, w')"
  shows "NORWAY_BOUNDS w' = NORWAY_BOUNDS w"
proof (cases "cache w n")
  case (Some d)
  with assms show ?thesis by (simp add: generate_data_hit)
next
  case None
  with assms obtain w0 where g: "generate_data_wrapped n w = Inr (df, w0)"
    and w': "w' = w0\<lparr>cache := (cache w0)(n \<mapsto> df)\<rparr>"
    by (auto simp add: generate_data_miss split: sum.splits prod.splits)
  show ?thesis using wrapped_frame(1)[OF g] by (simp add: w')
qed

lemma num_points_slider_range: "100 \<le> num_points_slider u" "num_points_slider u \<le> 10000"
  by (simp_all add: num_points_slider_def slider_def split: option.splits)

text \<open>
  The extreme draws, evaluated: the draw 0 gives the south-west corner, the largest
  draw gives the latitude \<open>71.5\<close> itself and a longitude one spacing below \<open>31.5\<close>.
\<close>

lemma random_sample_0: "random_sample 0 = 0"
  by (simp add: random_sample_def)

lemma random_sample_top: "random_sample (- 1) = 1 - 1 / 2 ^ 53"
  by (simp add: random_sample_def unsigned_minus_1_eq_mask mask_eq_exp_minus_1)

lemma lat_of_0: "random_uniform (115 / 2) 14 0 = 115 / 2"
  unfolding random_uniform_def random_sample_0 by code_simp

lemma lon_of_0: "random_uniform 4 (55 / 2) 0 = 4"
  unfolding random_uniform_def random_sample_0 by code_simp

lemma lat_of_top: "random_uniform (115 / 2) 14 (- 1) = 143 / 2"
  unfolding random_uniform_def random_sample_top by code_simp

lemma lon_of_top: "random_uniform 4 (55 / 2) (- 1) = 63 / 2 - 1 / 2 ^ 48"
  unfolding random_uniform_def random_sample_top by code_simp

text \<open>
  The calls of \<^verbatim>\<open>generate_data(100)\<close> in the concrete sessions.
\<close>

lemma stake_sconst: "stake n (sconst x) = replicate n x"
  by (induction n) (simp_all del: stake_siterate add: replicate_append_same)

lemma stake_100_SCons: "stake 100 (x ## s) = x # stake 99 s"
  using stake.simps(2)[of 99 "x ## s"] by simp

lemma sdrop_100_SCons: "sdrop 100 (x ## s) = sdrop 99 s"
  using sdrop.simps(2)[of 99 "x ## s"] by simp

lemma ready_world_zero: "ready world_zero"
  by (simp add: ready_def cache_sound_def world_zero_def)

lemma ready_world_top: "ready world_top"
  by (simp add: ready_def cache_sound_def world_top_def)

lemma replicate_100: "replicate 100 x = x # replicate 99 x"
  using replicate.simps(2)[of 99 x] by simp

lemma generate_data_world_zero:
  "generate_data 100 world_zero = Inr (frame_zero, world_zero\<lparr>cache := [100 \<mapsto> frame_zero]\<rparr>)"
proof -
  have "generate_data_wrapped 100 world_zero = Inr (frame_zero, world_zero)"
    using wrapped_closed[of world_zero 100]
    by (simp add: world_zero_def frame_zero_def stake_sconst lat_of_0 lon_of_0
        del: stake_siterate)
  then show ?thesis by (simp add: generate_data_miss world_zero_def)
qed

lemma generate_data_world_top:
  "generate_data 100 world_top =
     Inr (frame_top, world_top\<lparr>cache := [100 \<mapsto> frame_top], random_state := sconst 0\<rparr>)"
proof -
  have "generate_data_wrapped 100 world_top = Inr (frame_top, world_top\<lparr>random_state := sconst 0\<rparr>)"
    using wrapped_closed[of world_top 100]
    by (simp add: world_top_def frame_top_def stake_sconst stake_100_SCons sdrop_100_SCons
        lat_of_0 lon_of_0 lat_of_top replicate_100 del: stake_siterate)
  then show ?thesis by (simp add: generate_data_miss world_top_def)
qed

text \<open>
  The script: line 64 always returns, so a run without a click renders the page and a
  run with a click stops at \<^verbatim>\<open>st.rerun()\<close>; the run that follows renders the page.
\<close>

lemma deck_unclick: "deck d (u\<lparr>regenerate_clicked := False\<rparr>) = deck d u"
  by (simp add: deck_def layer_def hexagon_radius_slider_def elevation_scale_slider_def)

lemma num_points_unclick: "num_points_slider (u\<lparr>regenerate_clicked := False\<rparr>) = num_points_slider u"
  by (simp add: num_points_slider_def)

lemma line_64:
  "\<exists>d w1. generate_data (num_points_slider u) (w\<lparr>NORWAY_BOUNDS := bounds_dict\<rparr>) = Inr (d, w1) \<and>
     NORWAY_BOUNDS w1 = bounds_dict"
  using num_points_slider_range(1)[of u] by (intro generate_data_total) simp_all

lemma script_clicked:
  assumes "regenerate_clicked u"
  shows "\<exists>d w1. generate_data (num_points_slider u) (w\<lparr>NORWAY_BOUNDS := bounds_dict\<rparr>) = Inr (d, w1) \<and>
     NORWAY_BOUNDS w1 = bounds_dict \<and> script u w = Inr (Rerun, cache_data_clear w1)"
  using line_64[of u w] assms by (auto simp add: script_def)

lemma script_rendered:
  assumes "\<not> regenerate_clicked u"
  shows "\<exists>d w1. generate_data (num_points_slider u) (w\<lparr>NORWAY_BOUNDS := bounds_dict\<rparr>) = Inr (d, w1) \<and>
     NORWAY_BOUNDS w1 = bounds_dict \<and>
     script u w = Inr (Rendered \<lparr>generated = df_len d, chart = deck d u,
       raw_sample = (if show_raw_checked u then Some (df_head 100 d) else None)\<rparr>, w1)"
  using line_64[of u w] assms by (auto simp add: script_def)

lemma run_clicked:
  assumes "script u w = Inr (Rerun, w1)"
  shows "run u w = script (u\<lparr>regenerate_clicked := False\<rparr>) w1"
  using assms by (simp add: run_def)

lemma run_rendered:
  "\<exists>d p w'. run u w = Inr (Rendered p, w') \<and> chart p = deck d u \<and> generated p = df_len d \<and>
     NORWAY_BOUNDS w' = bounds_dict"
proof (cases "regenerate_clicked u")
  case True
  from script_clicked[OF True, of w] obtain d w1 where
    s: "script u w = Inr (Rerun, cache_data_clear w1)" by blast
  have "\<not> regenerate_clicked (u\<lparr>regenerate_clicked := False\<rparr>)" by simp
  from script_rendered[OF this, of "cache_data_clear w1"] show ?thesis
    unfolding run_clicked[OF s] deck_unclick by fastforce
next
  case False
  from script_rendered[OF False, of w] obtain d w1 where
    "script u w = Inr (Rendered \<lparr>generated = df_len d, chart = deck d u,
       raw_sample = (if show_raw_checked u then Some (df_head 100 d) else None)\<rparr>, w1)"
    "NORWAY_BOUNDS w1 = bounds_dict" by blast
  then show ?thesis by (auto simp add: run_def)
qed

text \<open>
  A session starts with an empty store, which is sound, and every run of the script
  ends in a ready world: the hypothesis \<open>ready\<close> below holds whenever the script calls
  \<^verbatim>\<open>generate_data\<close>.
\<close>

lemma cache_sound_empty: "cache w = Map.empty \<Longrightarrow> cache_sound w"
  by (simp add: cache_sound_def)

lemma script_ready:
  assumes "cache_sound w" "script u w = Inr (out, w')"
  shows "ready w'"
proof -
  let ?w0 = "w\<lparr>NORWAY_BOUNDS := bounds_dict\<rparr>"
  have r0: "ready ?w0" using assms(1) by (simp add: ready_def cache_sound_def)
  from assms(2) obtain d w1 where g: "generate_data (num_points_slider u) ?w0 = Inr (d, w1)"
    and w': "w' = (if regenerate_clicked u then cache_data_clear w1 else w1)"
    by (auto simp add: script_def split: sum.splits prod.splits if_splits)
  from generate_data_ready(2)[OF r0 g] have "ready w1" .
  then show ?thesis by (simp add: w' ready_def cache_sound_def cache_data_clear_def)
qed

lemma run_ready:
  assumes "cache_sound w" "run u w = Inr (out, w')"
  shows "ready w'"
proof (cases "\<exists>w1. script u w = Inr (Rerun, w1)")
  case True
  then obtain w1 where s: "script u w = Inr (Rerun, w1)" by blast
  from script_ready[OF assms(1) s] have "cache_sound w1" by (simp add: ready_def)
  moreover from assms(2) have "script (u\<lparr>regenerate_clicked := False\<rparr>) w1 = Inr (out, w')"
    by (simp add: run_clicked[OF s])
  ultimately show ?thesis by (rule script_ready)
next
  case False
  then have "run u w = script u w"
    by (auto simp add: run_def split: sum.splits prod.splits outcome.splits)
  with assms show ?thesis by (simp add: script_ready)
qed

text \<open>
  A miss, in closed form: the frame of the next draws, stored under the count. An entry
  of the store outlives every later call, whatever its count. The calls in the worlds
  that the first draw of the largest value leads to.
\<close>

lemma wrapped_draws:
  assumes "NORWAY_BOUNDS w = bounds_dict" "0 \<le> n"
  shows "generate_data_wrapped n w =
    Inr (frame_of_draws (nat n) (random_state w),
         w\<lparr>random_state := sdrop (nat n + nat n) (random_state w)\<rparr>)"
  using wrapped_closed[OF assms] by (simp add: frame_of_draws_def)

lemma entry_survives:
  assumes "generate_data m w = Inr (d, w')" "cache w n = Some df"
  shows "cache w' n = Some df"
proof (cases "cache w m")
  case (Some d')
  with assms show ?thesis by (simp add: generate_data_hit)
next
  case None
  with assms(1) obtain w0 where g: "generate_data_wrapped m w = Inr (d, w0)"
    and w': "w' = w0\<lparr>cache := (cache w0)(m \<mapsto> d)\<rparr>"
    by (auto simp add: generate_data_miss split: sum.splits prod.splits)
  from None assms(2) have "m \<noteq> n" by auto
  then show ?thesis using wrapped_frame(2)[OF g] assms(2) by (simp add: w')
qed

lemma later_calls_entry:
  assumes "later_calls ms w = Inr w'" "cache w n = Some df"
  shows "cache w' n = Some df"
  using assms
proof (induction ms arbitrary: w)
  case Nil
  then show ?case by simp
next
  case (Cons m ms)
  from Cons.prems(1) obtain d w0 where g: "generate_data m w = Inr (d, w0)"
    and r: "later_calls ms w0 = Inr w'"
    by (auto split: sum.splits prod.splits)
  from entry_survives[OF g Cons.prems(2)] have "cache w0 n = Some df" .
  with r show ?case by (rule Cons.IH)
qed

lemma stored_after_call:
  assumes "generate_data n w = Inr (df, w1)"
  shows "cache w1 n = Some df"
proof (cases "cache w n")
  case (Some d)
  with assms show ?thesis by (simp add: generate_data_hit)
next
  case None
  with assms obtain w0 where "w1 = w0\<lparr>cache := (cache w0)(n \<mapsto> df)\<rparr>"
    by (auto simp add: generate_data_miss split: sum.splits prod.splits)
  then show ?thesis by simp
qed

lemma generate_data_world_hit: "generate_data 100 world_top = Inr (frame_top, world_hit)"
  using generate_data_world_top by (simp add: world_hit_def)

lemma frame_of_draws_zero:
  "frame_of_draws n (sconst 0) = \<lparr>lat = replicate n (115 / 2), lon = replicate n 4\<rparr>"
  by (simp add: frame_of_draws_def stake_sconst lat_of_0 lon_of_0 del: stake_siterate)

lemma later_calls_world_hit: "later_calls [1] world_hit = Inr world_later"
proof -
  have b: "NORWAY_BOUNDS world_hit = bounds_dict" by (simp add: world_hit_def world_top_def)
  have "generate_data_wrapped 1 world_hit = Inr (frame_one, world_hit)"
    using wrapped_draws[OF b, of 1]
    by (simp add: world_hit_def world_top_def frame_of_draws_zero frame_one_def)
  then have "generate_data 1 world_hit = Inr (frame_one, world_later)"
    by (simp add: generate_data_miss world_hit_def world_top_def world_later_def fun_upd_twist)
  then show ?thesis by simp
qed

lemma resample_world_later: "generate_data_wrapped 100 world_later = Inr (frame_zero, world_later)"
proof -
  have b: "NORWAY_BOUNDS world_later = bounds_dict"
    by (simp add: world_later_def world_hit_def world_top_def)
  show ?thesis
    using wrapped_draws[OF b, of 100]
    by (simp add: world_later_def world_hit_def world_top_def frame_of_draws_zero frame_zero_def)
qed

lemma frames_differ: "frame_top \<noteq> frame_zero"
  by (simp add: frame_top_def frame_zero_def replicate_100)




section \<open>The claims\<close>

text \<open>
  C1. In a ready world a call of \<^verbatim>\<open>generate_data\<close> with a count \<open>N\<close> between 100 and
  10000 returns, and the frame it returns has exactly \<open>N\<close> rows, that is \<open>N\<close> coordinate
  pairs.
\<close>

theorem generate_data_row_count:
  assumes "ready w" "100 \<le> n" "n \<le> 10000"
  shows "\<exists>df w'. generate_data n w = Inr (df, w') \<and> df_len df = n \<and> length (rows df) = nat n"
proof -
  from assms have "NORWAY_BOUNDS w = bounds_dict" "0 \<le> n" by (simp_all add: ready_def)
  from generate_data_total[OF this] obtain df w' where g: "generate_data n w = Inr (df, w')"
    by blast
  from generate_data_ready(1)[OF assms(1) g] have "produced n df" .
  from produced_rows(1,2)[OF this] g show ?thesis by simp
qed

text \<open>An instance of C1: 100 points from the generator of zeros.\<close>

theorem generate_data_row_count_witness:
  "ready world_zero \<and> (100::int) \<le> 100 \<and> (100::int) \<le> 10000 \<and>
   (\<exists>df w'. generate_data 100 world_zero = Inr (df, w') \<and> df_len df = 100 \<and>
      length (rows df) = nat 100)"
  using generate_data_row_count[of world_zero 100] ready_world_zero by simp

text \<open>
  C2. Whatever the count, every coordinate pair of a frame that \<^verbatim>\<open>generate_data\<close>
  returns in a ready world has its longitude in \<open>[4.0, 31.5]\<close> and its latitude in
  \<open>[57.5, 71.5]\<close>.
\<close>

theorem generated_points_in_bounding_box:
  assumes "ready w" "generate_data n w = Inr (df, w')"
  shows "list_all in_bounding_box (rows df)"
  using generate_data_ready(1)[OF assms] by (rule produced_rows(3))

text \<open>An instance of C2: the 100 points of the generator of zeros, all at (4.0, 57.5).\<close>

theorem generated_points_in_bounding_box_witness:
  "ready world_zero \<and>
   generate_data 100 world_zero = Inr (frame_zero, world_zero\<lparr>cache := [100 \<mapsto> frame_zero]\<rparr>) \<and>
   list_all in_bounding_box (rows frame_zero)"
  using generated_points_in_bounding_box[OF ready_world_zero generate_data_world_zero]
    ready_world_zero generate_data_world_zero by simp

text \<open>
  C3. When a call of \<^verbatim>\<open>generate_data\<close> with a count has returned a frame, a call
  with the same count returns that frame again and draws nothing, in every world whose
  store still has the entry the first call left, whatever the state of the generator
  there; and the entry is still there after any sequence of further calls, with the same
  or with other counts.
\<close>

theorem second_call_returns_cached:
  assumes "generate_data n w = Inr (df, w1)"
  shows "(\<forall>w2. cache w2 n = cache w1 n \<longrightarrow> generate_data n w2 = Inr (df, w2)) \<and>
         (\<forall>ms w2. later_calls ms w1 = Inr w2 \<longrightarrow> generate_data n w2 = Inr (df, w2))"
proof -
  note s = stored_after_call[OF assms]
  have "generate_data n w2 = Inr (df, w2)" if "cache w2 n = cache w1 n" for w2
    using that s by (simp add: generate_data_hit)
  moreover have "generate_data n w2 = Inr (df, w2)" if "later_calls ms w1 = Inr w2" for ms w2
    using later_calls_entry[OF that s] by (rule generate_data_hit)
  ultimately show ?thesis by blast
qed

text \<open>
  An instance of C3: 100 points whose first lies on the northern bound, then a call for
  one point, then 100 points again. The stored frame comes back, where the generator
  would now give another one.
\<close>

theorem second_call_returns_cached_witness:
  "generate_data 100 world_top = Inr (frame_top, world_hit) \<and>
   later_calls [1] world_hit = Inr world_later \<and>
   generate_data 100 world_later = Inr (frame_top, world_later) \<and>
   generate_data_wrapped 100 world_later = Inr (frame_zero, world_later) \<and>
   frame_top \<noteq> frame_zero"
  using second_call_returns_cached[OF generate_data_world_hit]
    generate_data_world_hit later_calls_world_hit resample_world_later frames_differ
  by blast



text \<open>
  The ramp of lines 87 to 93 read as normalized RGBA, every channel in the unit
  interval: already its first stop, \<open>[255, 255, 178, 100]\<close>, is not of that kind.
\<close>

theorem color_range_not_normalized:
  "\<not> list_all normalized_rgba (color_range (layer frame_zero first_visit))"
  by (simp add: layer_def normalized_rgba_def)

text \<open>
  C5, amended. Whatever the data and the sliders, the layer carries a fixed ramp of
  exactly five stops, each a list of four integer channels between 0 and 255 (8-bit
  RGBA, not normalized), running from light yellow \<open>[255, 255, 178, 100]\<close> to dark red
  \<open>[189, 0, 38, 220]\<close> with red and green falling and opacity rising from stop to stop.
\<close>

theorem color_range_five_stops:
  "length (color_range (layer d u)) = 5 \<and>
   list_all rgba8 (color_range (layer d u)) \<and>
   hd (color_range (layer d u)) = [255, 255, 178, 100] \<and>
   last (color_range (layer d u)) = [189, 0, 38, 220] \<and>
   sorted_wrt darker (color_range (layer d u))"
  by (simp add: layer_def rgba8_def darker_def)

text \<open>
  C6. Whatever the user did to the slider and whatever the world, the count that line 64
  hands to \<^verbatim>\<open>generate_data\<close> is an integer between 100 and 10000, that call returns a
  frame, and the whole run ends with the page: no error branch of the generator is
  reached.
\<close>

theorem point_count_within_slider_range:
  "100 \<le> num_points_slider u \<and> num_points_slider u \<le> 10000 \<and>
   (\<exists>d w1. generate_data (num_points_slider u) (w\<lparr>NORWAY_BOUNDS := bounds_dict\<rparr>) = Inr (d, w1)) \<and>
   (\<exists>p w'. run u w = Inr (Rendered p, w'))"
  using num_points_slider_range[of u] line_64[of u w] run_rendered[of u w] by blast

text \<open>
  C7. Whatever the widget state and the world, the page that a run ends with shows a
  deck of one layer whose elevation range is \<open>[0, 1000]\<close>, which is extruded, pickable
  and highlighted on hover, with the tooltip of line 111 and the camera at longitude
  10.0, latitude 64.0, zoom 4, pitch 50, bearing 0.
\<close>

theorem scene_constants:
  "\<exists>p w'. run u w = Inr (Rendered p, w') \<and>
     map elevation_range (layers (chart p)) = [[0, 1000]] \<and>
     map extruded (layers (chart p)) = [True] \<and>
     map pickable (layers (chart p)) = [True] \<and>
     map auto_highlight (layers (chart p)) = [True] \<and>
     html (tooltip (chart p)) =
       ''<b>Elevation Value:</b> {elevationValue}<br/><b>Number of Points:</b> {count}'' \<and>
     initial_view_state (chart p) =
       \<lparr>longitude = 10, latitude = 64, zoom = 4, pitch = 50, bearing = 0\<rparr>"
proof -
  from run_rendered[of u w] obtain d p w' where
    "run u w = Inr (Rendered p, w')" "chart p = deck d u" by blast
  then show ?thesis by (simp add: deck_def layer_def view_state_def)
qed

text \<open>
  C8. The dict of line 49 has the four keys \<^verbatim>\<open>min_lon\<close>, \<^verbatim>\<open>max_lon\<close>, \<^verbatim>\<open>min_lat\<close>,
  \<^verbatim>\<open>max_lat\<close> with the values 4.0, 31.5, 57.5, 71.5, each a double. Clearing the store
  does not touch \<^verbatim>\<open>NORWAY_BOUNDS\<close>, a call of \<^verbatim>\<open>generate_data\<close> that returns leaves it
  as it was, and every run, with or without a rerun, ends with that dict in it.
\<close>

theorem bounding_box_never_mutated:
  "dom bounds_dict = {''min_lon'', ''max_lon'', ''min_lat'', ''max_lat''} \<and>
   map bounds_dict [''min_lon'', ''max_lon'', ''min_lat'', ''max_lat''] =
     [Some 4, Some (63 / 2), Some (115 / 2), Some (143 / 2)] \<and>
   map fl [4, 63 / 2, 115 / 2, 143 / 2] = [4, 63 / 2, 115 / 2, 143 / 2] \<and>
   NORWAY_BOUNDS (cache_data_clear w) = NORWAY_BOUNDS w \<and>
   (\<forall>n df w'. generate_data n w = Inr (df, w') \<longrightarrow> NORWAY_BOUNDS w' = NORWAY_BOUNDS w) \<and>
   (\<forall>u. \<exists>p w'. run u w = Inr (Rendered p, w') \<and> NORWAY_BOUNDS w' = bounds_dict)"
proof -
  have "dom bounds_dict = {''min_lon'', ''max_lon'', ''min_lat'', ''max_lat''}"
    by (auto simp add: bounds_dict_def)
  moreover have "map bounds_dict [''min_lon'', ''max_lon'', ''min_lat'', ''max_lat''] =
     [Some 4, Some (63 / 2), Some (115 / 2), Some (143 / 2)]"
    by (simp add: bounds_dict_def)
  moreover have "map fl [4, 63 / 2, 115 / 2, 143 / 2] = [4, 63 / 2, 115 / 2, 143 / 2]"
    by code_simp
  moreover have "NORWAY_BOUNDS (cache_data_clear w) = NORWAY_BOUNDS w"
    by (simp add: cache_data_clear_def)
  moreover have "\<forall>n df w'. generate_data n w = Inr (df, w') \<longrightarrow> NORWAY_BOUNDS w' = NORWAY_BOUNDS w"
    using generate_data_frame by blast
  moreover have "\<forall>u. \<exists>p w'. run u w = Inr (Rendered p, w') \<and> NORWAY_BOUNDS w' = bounds_dict"
    using run_rendered by blast
  ultimately show ?thesis by (intro conjI)
qed

text \<open>An instance of C8: the call for 100 points from the generator of zeros.\<close>

theorem bounding_box_never_mutated_witness:
  "generate_data 100 world_zero = Inr (frame_zero, world_cached) \<and>
   NORWAY_BOUNDS world_cached = NORWAY_BOUNDS world_zero \<and>
   NORWAY_BOUNDS world_zero = bounds_dict"
proof -
  have g: "generate_data 100 world_zero = Inr (frame_zero, world_cached)"
    using generate_data_world_zero by (simp add: world_cached_def)
  from bounding_box_never_mutated[of world_zero] g
  have "NORWAY_BOUNDS world_cached = NORWAY_BOUNDS world_zero" by blast
  with g show ?thesis by (simp add: world_zero_def)
qed

text \<open>
  Both upper bounds strict: when the first draw is the largest one, \<open>1 - 2\<^sup>-\<^sup>5\<^sup>3\<close>, the
  product \<open>14 u\<close> rounds to \<open>14 - 2\<^sup>-\<^sup>4\<^sup>9\<close> and the sum \<open>57.5 + 14 - 2\<^sup>-\<^sup>4\<^sup>9\<close> rounds to
  \<open>71.5\<close>, so the first of the 100 points lies on the northern bound.
\<close>

theorem latitude_bound_attained:
  "ready world_top \<and>
   generate_data 100 world_top =
     Inr (frame_top, world_top\<lparr>cache := [100 \<mapsto> frame_top], random_state := sconst 0\<rparr>) \<and>
   \<not> list_all below_upper_bounds (rows frame_top)"
  using ready_world_top generate_data_world_top
  by (simp add: frame_top_def rows_def below_upper_bounds_def)

text \<open>
  C9, amended. Whatever the count, every coordinate pair of a frame that
  \<^verbatim>\<open>generate_data\<close> returns in a ready world has a longitude strictly below \<open>31.5\<close> and
  a latitude of at most \<open>71.5\<close>.
\<close>

theorem generated_points_below_east_upto_north:
  assumes "ready w" "generate_data n w = Inr (df, w')"
  shows "list_all below_east_upto_north (rows df)"
  using generate_data_ready(1)[OF assms] by (rule produced_rows(4))

text \<open>An instance of C9 as amended: the 100 points whose first lies on the northern bound.\<close>

theorem generated_points_below_east_upto_north_witness:
  "ready world_top \<and>
   generate_data 100 world_top =
     Inr (frame_top, world_top\<lparr>cache := [100 \<mapsto> frame_top], random_state := sconst 0\<rparr>) \<and>
   list_all below_east_upto_north (rows frame_top)"
  using generated_points_below_east_upto_north[OF ready_world_top generate_data_world_top]
    ready_world_top generate_data_world_top by simp

text \<open>
  C10. A run in which the button was clicked stops with a store that has no entry left,
  under any count; the run that follows ends with a store whose only key is the count
  now selected, so no frame stored before the click survives.
\<close>

theorem regenerate_clears_every_key:
  assumes "regenerate_clicked u"
  shows "\<exists>w1. script u w = Inr (Rerun, w1) \<and> (\<forall>k. cache w1 k = None) \<and>
     (\<exists>p w2. run u w = Inr (Rendered p, w2) \<and> dom (cache w2) = {num_points_slider u})"
proof -
  from script_clicked[OF assms, of w] obtain d w0 where
    s: "script u w = Inr (Rerun, cache_data_clear w0)" by blast
  let ?w1 = "cache_data_clear w0"
  let ?u = "u\<lparr>regenerate_clicked := False\<rparr>"
  let ?w = "?w1\<lparr>NORWAY_BOUNDS := bounds_dict\<rparr>"
  have e: "cache ?w1 k = None" for k by (simp add: cache_data_clear_def)
  have n: "0 \<le> num_points_slider u" using num_points_slider_range(1)[of u] by simp
  have "cache ?w (num_points_slider u) = None" by (simp add: cache_data_clear_def)
  then have "\<exists>d w2. generate_data (num_points_slider u) ?w = Inr (d, w2) \<and>
      dom (cache w2) = {num_points_slider u}"
    using n by (simp add: generate_data_miss wrapped_closed cache_data_clear_def)
  then have "\<exists>p w2. script ?u ?w1 = Inr (Rendered p, w2) \<and> dom (cache w2) = {num_points_slider u}"
    by (auto simp add: script_def num_points_unclick)
  then show ?thesis using s e run_clicked[OF s] by simp
qed

text \<open>
  An instance of C10: the slider at its default of 5000, the store holding the frame for
  100 points, and a click.
\<close>

theorem regenerate_clears_every_key_witness:
  "regenerate_clicked clicked \<and> cache world_cached 100 = Some frame_zero \<and>
   (\<exists>w1. script clicked world_cached = Inr (Rerun, w1) \<and> (\<forall>k. cache w1 k = None) \<and>
     (\<exists>p w2. run clicked world_cached = Inr (Rendered p, w2) \<and>
        dom (cache w2) = {num_points_slider clicked}))"
  using regenerate_clears_every_key[of clicked world_cached]
  by (simp add: clicked_def world_cached_def)

end
